theory Spec2Isabelle
  imports Main
begin

section \<open>The Informer event emitter of protoblast (lib/informer.js)\<close>

subsection \<open>Values\<close>

text \<open>
  Attribute values of filter objects are primitives: \<open>undefined\<close>, strings and numbers, a
  number being an integer-valued double written as the integer it denotes. A filter
  object is a plain object given by the association list of its own keys.
\<close>

datatype prim = PUndefined | PString string | PNumber int

type_synonym filter = "(string \<times> prim) list"

text \<open>Function values: a user function, or a wrapper \<open>g\<close> built by \<open>many\<close>/\<open>after\<close>
  (an index into the closure store).\<close>

datatype fn = User nat | Shim nat

datatype jsval =
    JPrim prim
  | JBool bool
  | JError string
  | JTypeError string
  | JFunction fn
  | JObject filter
  | JArray "jsval list"

text \<open>The first argument of every method: a type name or a filter object.\<close>

datatype etype = TName string | TFilter filter

subsection \<open>Plain objects and what they inherit\<close>

text \<open>
  The emitter keeps its listeners and its seen marks in plain objects (\<open>{}\<close>), and filters
  are plain objects too. A property read on a plain object that has no such own key
  finds the member of \<open>Object.prototype\<close> of that name: a built-in function, of which the
  code can observe the \<open>length\<close>, or, under \<open>__proto__\<close>, the prototype object itself, which
  has no \<open>length\<close>.
\<close>

datatype inherited = IFunction nat | IObject

definition Object_prototype :: "string \<Rightarrow> inherited option" where
  "Object_prototype = map_of
     [(''constructor'', IFunction 1),
      (''toString'', IFunction 0),
      (''toLocaleString'', IFunction 0),
      (''valueOf'', IFunction 0),
      (''hasOwnProperty'', IFunction 1),
      (''isPrototypeOf'', IFunction 1),
      (''propertyIsEnumerable'', IFunction 1),
      (''__defineGetter__'', IFunction 2),
      (''__defineSetter__'', IFunction 2),
      (''__lookupGetter__'', IFunction 1),
      (''__lookupSetter__'', IFunction 1),
      (''__proto__'', IObject)]"

datatype 'a member = Own 'a | Inherited inherited | Missing

text \<open>\<open>obj[k]\<close> on a plain object with the own keys \<open>d\<close>.\<close>

definition member :: "(string \<rightharpoonup> 'a) \<Rightarrow> string \<Rightarrow> 'a member" where
  "member d k =
     (case d k of
        Some v \<Rightarrow> Own v
      | None \<Rightarrow> (case Object_prototype k of Some i \<Rightarrow> Inherited i | None \<Rightarrow> Missing))"

text \<open>\<open>listeners.length\<close> as a loop bound, when \<open>listeners\<close> is an inherited member: a
  missing \<open>length\<close> is \<open>undefined\<close> and no index is below it.\<close>

fun inherited_length :: "inherited \<Rightarrow> nat" where
  "inherited_length (IFunction n) = n"
| "inherited_length IObject = 0"

subsection \<open>Loose equality\<close>

text \<open>
  Two conversions of the language, which \<open>==\<close> applies to operands of different types, are
  parameters of the model: \<open>ToNumber\<close> on strings (\<open>Some n\<close> when the result is the
  integer \<open>n\<close>, \<open>None\<close> when it is \<open>NaN\<close>, infinite or fractional), and the string that
  \<open>ToPrimitive\<close> gives for the member of \<open>Object.prototype\<close> of a given name.
\<close>

record host =
  ToNumber :: "string \<Rightarrow> int option"
  member_text :: "string \<Rightarrow> string"

text \<open>\<open>a == b\<close> on primitives.\<close>

fun loose_eq :: "host \<Rightarrow> prim \<Rightarrow> prim \<Rightarrow> bool" where
  "loose_eq h PUndefined PUndefined = True"
| "loose_eq h (PString a) (PString b) = (a = b)"
| "loose_eq h (PNumber a) (PNumber b) = (a = b)"
| "loose_eq h (PNumber a) (PString s) = (ToNumber h s = Some a)"
| "loose_eq h (PString s) (PNumber a) = (ToNumber h s = Some a)"
| "loose_eq h _ _ = False"

text \<open>\<open>a == o\<close> for a primitive \<open>a\<close> and the inherited member \<open>o\<close> of the name \<open>k\<close>: the
  object is converted to its string first.\<close>

fun loose_eq_inherited :: "host \<Rightarrow> prim \<Rightarrow> string \<Rightarrow> bool" where
  "loose_eq_inherited h PUndefined k = False"
| "loose_eq_inherited h (PString s) k = (s = member_text h k)"
| "loose_eq_inherited h (PNumber a) k = (ToNumber h (member_text h k) = Some a)"

fun truthy :: "prim \<Rightarrow> bool" where
  "truthy PUndefined = False"
| "truthy (PString s) = (s \<noteq> [])"
| "truthy (PNumber n) = (n \<noteq> 0)"

text \<open>\<open>f[k]\<close> on a filter object.\<close>

definition get :: "filter \<Rightarrow> string \<Rightarrow> prim member" where
  "get f k = member (map_of f) k"

text \<open>\<open>stored[key] != other[key]\<close> for an own key of \<open>stored\<close>, negated.\<close>

definition key_eq :: "host \<Rightarrow> filter \<Rightarrow> filter \<Rightarrow> string \<Rightarrow> bool" where
  "key_eq h stored other k =
     (let a = (case map_of stored k of Some v \<Rightarrow> v | None \<Rightarrow> PUndefined)
      in case get other k of
           Own b \<Rightarrow> loose_eq h a b
         | Missing \<Rightarrow> loose_eq h a PUndefined
         | Inherited i \<Rightarrow> loose_eq_inherited h a k)"

text \<open>
  The key loop shared by \<open>hasBeenSeen\<close>, \<open>queryListeners\<close> and \<open>removeListener\<close>:
  \<open>doit\<close> stays true iff no own key of the stored filter has \<open>stored[key] != other[key]\<close>.
\<close>

definition key_match :: "host \<Rightarrow> filter \<Rightarrow> filter \<Rightarrow> bool" where
  "key_match h stored other = list_all (key_eq h stored other) (map fst stored)"

text \<open>\<open>typeof type.type === 'string' ? type.type : ''\<close>\<close>

definition filter_typeName :: "filter \<Rightarrow> string" where
  "filter_typeName f = (case get f ''type'' of Own (PString s) \<Rightarrow> s | _ \<Rightarrow> [])"

fun typeName_of :: "etype \<Rightarrow> string" where
  "typeName_of (TName s) = s"
| "typeName_of (TFilter f) = filter_typeName f"

fun filter_of :: "etype \<Rightarrow> filter option" where
  "filter_of (TName s) = None"
| "filter_of (TFilter f) = Some f"

subsection \<open>Results\<close>

text \<open>A call either returns, throws (the state reached is kept) or exhausts the recursion
  budget of the model. A function that changes nothing returns \<open>Inr\<close> or throws \<open>Inl\<close>.\<close>

datatype ('a, 's) outcome = Ret 'a | Thr jsval 's | NoFuel

definition then_do :: "('a, 's) outcome \<Rightarrow> ('a \<Rightarrow> ('b, 's) outcome) \<Rightarrow> ('b, 's) outcome" where
  "then_do m f = (case m of Ret x \<Rightarrow> f x | Thr e s \<Rightarrow> Thr e s | NoFuel \<Rightarrow> NoFuel)"

text \<open>The \<open>TypeError\<close> of the engine for reading a member of \<open>undefined\<close> and for calling
  what is not a function; the model fixes one message text for each.\<close>

definition undefined_read :: jsval where
  "undefined_read = JTypeError ''Cannot read property of undefined''"

definition not_a_function :: jsval where
  "not_a_function = JTypeError ''undefined is not a function''"

subsection \<open>The emitter\<close>

text \<open>
  The wrapper \<open>g\<close> of \<open>many\<close> and \<open>after\<close> closes over \<open>type\<close>, \<open>times\<close>, \<open>listener\<close> and the
  counter \<open>fired\<close>; \<open>g.listener\<close> is the wrapped function.
\<close>

record shim =
  sh_type :: etype
  sh_times :: int
  sh_listener :: fn
  sh_fired :: int

text \<open>
  The five members set by the constructor, by their own keys: the two plain objects of
  listener arrays, the array \<open>listenTypes\<close>, the plain object \<open>simpleSeen\<close> (the names
  whose own value is \<open>true\<close>) and the array \<open>filterSeen\<close>; and the store of the wrapper
  closures created so far.
\<close>

record informer =
  simpleListeners :: "string \<rightharpoonup> fn list"
  filterListeners :: "string \<rightharpoonup> (fn \<times> filter) list"
  listenTypes :: "string list"
  simpleSeen :: "string \<Rightarrow> bool"
  filterSeen :: "filter list"
  closures :: "shim list"

definition new_Informer :: informer where
  "new_Informer = \<lparr> simpleListeners = Map.empty, filterListeners = Map.empty,
     listenTypes = [], simpleSeen = (\<lambda>_. False), filterSeen = [], closures = [] \<rparr>"

subsection \<open>hasBeenSeen, queryListeners, listeners\<close>

text \<open>The names whose filter listeners are scanned: \<open>[typeName, '']\<close> or \<open>listenTypes\<close>.\<close>

definition scan_types :: "informer \<Rightarrow> string \<Rightarrow> string list" where
  "scan_types E typeName = (if typeName \<noteq> [] then [typeName, []] else listenTypes E)"

text \<open>
  The loop over \<open>types\<close> in \<open>hasBeenSeen\<close>. Under an inherited function the loop over \<open>j\<close>
  runs up to its \<open>length\<close>, and \<open>entry[1]\<close> of the \<open>undefined\<close> entry throws.
\<close>

fun seen_scan :: "host \<Rightarrow> informer \<Rightarrow> filter \<Rightarrow> string list \<Rightarrow> jsval + bool" where
  "seen_scan h E f [] = Inr False"
| "seen_scan h E f (n # ns) =
     (case member (filterListeners E) n of
        Missing \<Rightarrow> seen_scan h E f ns
      | Own ls \<Rightarrow>
          (if list_ex (\<lambda>entry. key_match h (snd entry) f) ls then Inr True
           else seen_scan h E f ns)
      | Inherited i \<Rightarrow>
          (if 0 < inherited_length i then Inl undefined_read else seen_scan h E f ns))"

text \<open>For a string, \<open>this.simpleSeen[type]\<close> is truthy for an own mark and for an inherited
  member.\<close>

fun hasBeenSeen :: "host \<Rightarrow> informer \<Rightarrow> etype \<Rightarrow> jsval + bool" where
  "hasBeenSeen h E (TName s) = Inr (simpleSeen E s \<or> Object_prototype s \<noteq> None)"
| "hasBeenSeen h E (TFilter f) = seen_scan h E f (scan_types E (filter_typeName f))"

text \<open>
  An entry of the result of \<open>queryListeners\<close> after its two metadata slots: \<open>[fn, filter]\<close>
  for a filter listener, \<open>[fn]\<close> for a simple one; the function is \<open>undefined\<close> (\<open>None\<close>) where
  the entry was read from an inherited function.
\<close>

type_synonym entry = "fn option \<times> filter option"

record query =
  q_typeName :: string
  q_filter :: "filter option"
  q_entries :: "entry list"

text \<open>The loop over \<open>types\<close> in \<open>queryListeners\<close>.\<close>

fun filter_scan :: "host \<Rightarrow> informer \<Rightarrow> filter \<Rightarrow> string list \<Rightarrow> jsval + entry list" where
  "filter_scan h E f [] = Inr []"
| "filter_scan h E f (n # ns) =
     (case member (filterListeners E) n of
        Missing \<Rightarrow> filter_scan h E f ns
      | Own ls \<Rightarrow>
          (case filter_scan h E f ns of
             Inl e \<Rightarrow> Inl e
           | Inr rest \<Rightarrow>
               Inr (map (\<lambda>e. (Some (fst e), Some (snd e))) (filter (\<lambda>e. key_match h (snd e) f) ls)
                    @ rest))
      | Inherited i \<Rightarrow>
          (if 0 < inherited_length i then Inl undefined_read else filter_scan h E f ns))"

text \<open>\<open>if (typeName) { listeners = this.simpleListeners[typeName]; ... result.push([listeners[j]]) }\<close>\<close>

definition simple_matches :: "informer \<Rightarrow> string \<Rightarrow> entry list" where
  "simple_matches E typeName =
     (if typeName \<noteq> [] then
        (case member (simpleListeners E) typeName of
           Missing \<Rightarrow> []
         | Own ls \<Rightarrow> map (\<lambda>l. (Some l, None)) ls
         | Inherited i \<Rightarrow> replicate (inherited_length i) (None, None))
      else [])"

text \<open>\<open>this.simpleSeen[typeName] = true\<close>: the assignment to \<open>__proto__\<close> of a value that is
  no object is ignored.\<close>

definition mark_seen :: "string \<Rightarrow> informer \<Rightarrow> informer" where
  "mark_seen typeName E =
     (if typeName = ''__proto__'' then E
      else E\<lparr>simpleSeen := (simpleSeen E)(typeName := True)\<rparr>)"

definition queryListeners :: "host \<Rightarrow> informer \<Rightarrow> etype \<Rightarrow> bool
    \<Rightarrow> (query \<times> informer, informer) outcome" where
  "queryListeners h E type markAsSeen =
     (let typeName = typeName_of type;
          E1 = mark_seen typeName E
      in case filter_of type of
           None \<Rightarrow>
             Ret (\<lparr>q_typeName = typeName, q_filter = None, q_entries = simple_matches E1 typeName\<rparr>, E1)
         | Some f \<Rightarrow>
             (let E2 = E1\<lparr>filterSeen := filterSeen E1 @ [f]\<rparr>
              in case filter_scan h E2 f (scan_types E2 typeName) of
                   Inl e \<Rightarrow> Thr e E2
                 | Inr ms \<Rightarrow>
                     Ret (\<lparr>q_typeName = typeName, q_filter = Some f,
                          q_entries = ms @ simple_matches E2 typeName\<rparr>, E2)))"

text \<open>\<open>this.queryListeners(type).slice(2)\<close>: the second argument is \<open>undefined\<close>.\<close>

definition listeners :: "host \<Rightarrow> informer \<Rightarrow> etype \<Rightarrow> (entry list \<times> informer, informer) outcome" where
  "listeners h E type =
     then_do (queryListeners h E type False) (\<lambda>(q, E'). Ret (q_entries q, E'))"

subsection \<open>Dispatch contexts and the call log\<close>

text \<open>
  The dispatch context: \<open>Object.create(emitter)\<close> with \<open>type\<close> and \<open>filter\<close>, the \<open>wait\<close>
  capability where \<open>emit\<close> attaches it, \<open>past\<close> where \<open>after\<close> sets it, and the members
  that \<open>wait\<close>, its completion function and \<open>stop\<close> write.
\<close>

record "context" =
  c_type :: string
  c_filter :: "filter option"
  c_has_wait :: bool
  c_past :: bool
  c_async :: prim
  c_err :: jsval
  c_ListenerIsDone :: bool
  c_ListenerSaysStop :: bool

definition new_context :: "string \<Rightarrow> filter option \<Rightarrow> bool \<Rightarrow> bool \<Rightarrow> context" where
  "new_context typeName flt has_wait past =
     \<lparr> c_type = typeName, c_filter = flt, c_has_wait = has_wait, c_past = past,
       c_async = PUndefined, c_err = JPrim PUndefined,
       c_ListenerIsDone = False, c_ListenerSaysStop = False \<rparr>"

text \<open>\<open>wait(type)\<close>: the comparison \<open>type == 'parallel'\<close> has no effect; \<open>this.async = type\<close>.\<close>

definition wait :: "prim \<Rightarrow> context \<Rightarrow> context" where
  "wait type c = c\<lparr>c_async := type\<rparr>"

text \<open>
  The completion function \<open>next(err)\<close> returned by \<open>wait\<close>. \<open>that.ListenerCallback\<close> is
  written by \<open>parallelHandler\<close> only, so it is unset while the listener body runs.
\<close>

definition wait_next :: "jsval \<Rightarrow> context \<Rightarrow> context" where
  "wait_next err c = c\<lparr>c_err := err, c_ListenerIsDone := True\<rparr>"

definition stop :: "context \<Rightarrow> context" where
  "stop c = c\<lparr>c_ListenerSaysStop := True\<rparr>"

text \<open>Every call of a user function is logged with its receiver and arguments.\<close>

type_synonym call = "nat \<times> context option \<times> jsval list"

record world =
  w_inf :: informer
  w_calls :: "call list"

text \<open>
  The bodies of the user functions are a parameter: function \<open>i\<close>, called on a receiver
  with arguments, transforms its receiver and the emitter, or throws.
\<close>

type_synonym body =
  "nat \<Rightarrow> context option \<Rightarrow> jsval list \<Rightarrow> informer \<Rightarrow> (context option \<times> informer, informer) outcome"

type_synonym emitfn = "etype \<Rightarrow> jsval list \<Rightarrow> world \<Rightarrow> (world, world) outcome"

type_synonym invfn =
  "fn \<Rightarrow> context option \<Rightarrow> jsval list \<Rightarrow> world \<Rightarrow> (context option \<times> world, world) outcome"

definition call_user :: "body \<Rightarrow> nat \<Rightarrow> context option \<Rightarrow> jsval list \<Rightarrow> world
    \<Rightarrow> (context option \<times> world, world) outcome" where
  "call_user body i this args w =
     (let w1 = w\<lparr>w_calls := w_calls w @ [(i, this, args)]\<rparr>
      in case body i this args (w_inf w1) of
           Ret (this', E') \<Rightarrow> Ret (this', w1\<lparr>w_inf := E'\<rparr>)
         | Thr e E' \<Rightarrow> Thr e (w1\<lparr>w_inf := E'\<rparr>)
         | NoFuel \<Rightarrow> NoFuel)"

fun etype_val :: "etype \<Rightarrow> jsval" where
  "etype_val (TName s) = JPrim (PString s)"
| "etype_val (TFilter f) = JObject f"

text \<open>\<open>fn.listener\<close>: the wrapped function of a wrapper, \<open>undefined\<close> otherwise.\<close>

fun fn_listener :: "informer \<Rightarrow> fn \<Rightarrow> fn option" where
  "fn_listener E (User i) = None"
| "fn_listener E (Shim k) =
     (if k < length (closures E) then Some (sh_listener (closures E ! k)) else None)"

definition same_listener :: "informer \<Rightarrow> fn \<Rightarrow> fn \<Rightarrow> bool" where
  "same_listener E entry l = (entry = l \<or> fn_listener E entry = Some l)"

subsection \<open>removeListener and addListener\<close>

text \<open>The array that the loop variable \<open>listeners\<close> of \<open>removeListener\<close> refers to, read back
  from the state: the own array under the key (none is the empty array).\<close>

definition simple_array :: "informer \<Rightarrow> string \<Rightarrow> fn list" where
  "simple_array E t = (case simpleListeners E t of None \<Rightarrow> [] | Some ls \<Rightarrow> ls)"

definition filter_array :: "informer \<Rightarrow> string \<Rightarrow> (fn \<times> filter) list" where
  "filter_array E n = (case filterListeners E n of None \<Rightarrow> [] | Some ls \<Rightarrow> ls)"

text \<open>\<open>listeners.splice(i, 1)\<close> on the array stored under a key.\<close>

definition splice_simple :: "string \<Rightarrow> nat \<Rightarrow> informer \<Rightarrow> informer" where
  "splice_simple t i E =
     E\<lparr>simpleListeners := (simpleListeners E)(t \<mapsto> take i (simple_array E t) @ drop (Suc i) (simple_array E t))\<rparr>"

definition splice_filter :: "string \<Rightarrow> nat \<Rightarrow> informer \<Rightarrow> informer" where
  "splice_filter n i E =
     E\<lparr>filterListeners := (filterListeners E)(n \<mapsto> take i (filter_array E n) @ drop (Suc i) (filter_array E n))\<rparr>"

text \<open>\<open>this.simpleListeners.removeListener\<close> as a condition.\<close>

definition has_removeListener :: "informer \<Rightarrow> bool" where
  "has_removeListener E = (member (simpleListeners E) ''removeListener'' \<noteq> Missing)"

text \<open>
  The reverse loops of \<open>removeListener\<close> over an own array; the first numeric argument is
  \<open>i + 1\<close>. The array is read from the state at every step, since the nested
  \<open>emit('removeListener', ...)\<close> may have changed it; reading a member of \<open>listeners[i]\<close>
  beyond its end throws.
\<close>

fun remove_simple :: "emitfn \<Rightarrow> string \<Rightarrow> fn \<Rightarrow> nat \<Rightarrow> world \<Rightarrow> (world, world) outcome" where
  "remove_simple em t l 0 w = Ret w"
| "remove_simple em t l (Suc i) w =
     (let E = w_inf w; ls = simple_array E t
      in if length ls \<le> i then Thr undefined_read w
         else if same_listener E (ls ! i) l then
           (let w1 = w\<lparr>w_inf := splice_simple t i E\<rparr>
            in if has_removeListener (w_inf w1) then
                 then_do (em (TName ''removeListener'') [JPrim (PString t), JFunction (ls ! i)] w1)
                   (\<lambda>w2. remove_simple em t l i w2)
               else remove_simple em t l i w1)
         else remove_simple em t l i w)"

text \<open>
  For a filter, an entry goes when its function matches and its filter is the very object
  given or passes the key loop; an object passes its own key loop, so the key loop decides.
\<close>

fun remove_filter :: "host \<Rightarrow> emitfn \<Rightarrow> filter \<Rightarrow> fn \<Rightarrow> nat \<Rightarrow> world \<Rightarrow> (world, world) outcome" where
  "remove_filter h em f l 0 w = Ret w"
| "remove_filter h em f l (Suc i) w =
     (let E = w_inf w; n = filter_typeName f; ls = filter_array E n
      in if length ls \<le> i then Thr undefined_read w
         else if same_listener E (fst (ls ! i)) l \<and> key_match h (snd (ls ! i)) f then
           (let w1 = w\<lparr>w_inf := splice_filter n i E\<rparr>
            in if has_removeListener (w_inf w1) then
                 then_do (em (TName ''removeListener'')
                            [JObject f, JArray [JFunction (fst (ls ! i)), JObject (snd (ls ! i))]] w1)
                   (\<lambda>w2. remove_filter h em f l i w2)
               else remove_filter h em f l i w1)
         else remove_filter h em f l i w)"

text \<open>
  \<open>removeListener\<close>: under an own key the loop runs from the end of the array; under an
  inherited function of positive \<open>length\<close> the first \<open>listeners[i].listener\<close> (or
  \<open>listeners[i][0]\<close>) reads a member of \<open>undefined\<close>.
\<close>

definition removeListener :: "host \<Rightarrow> emitfn \<Rightarrow> etype \<Rightarrow> jsval \<Rightarrow> world \<Rightarrow> (world, world) outcome" where
  "removeListener h em type listenerToRemove w =
     (case listenerToRemove of
        JFunction l \<Rightarrow>
          (case type of
             TName t \<Rightarrow>
               (case member (simpleListeners (w_inf w)) t of
                  Own ls \<Rightarrow> remove_simple em t l (length ls) w
                | Inherited i \<Rightarrow> (if 0 < inherited_length i then Thr undefined_read w else Ret w)
                | Missing \<Rightarrow> Ret w)
           | TFilter f \<Rightarrow>
               (case member (filterListeners (w_inf w)) (filter_typeName f) of
                  Own ls \<Rightarrow> remove_filter h em f l (length ls) w
                | Inherited i \<Rightarrow> (if 0 < inherited_length i then Thr undefined_read w else Ret w)
                | Missing \<Rightarrow> Ret w))
      | _ \<Rightarrow> Thr (JTypeError ''listener must be a function'') w)"

text \<open>
  \<open>if (!target[typeName]) {...}; target[typeName].push(entry)\<close>: an inherited member is
  truthy, so no array is created, and it has no \<open>push\<close>.
\<close>

fun add_entry :: "etype \<Rightarrow> fn \<Rightarrow> informer \<Rightarrow> jsval + informer" where
  "add_entry (TName t) l E =
     (case member (simpleListeners E) t of
        Missing \<Rightarrow> Inr (E\<lparr>simpleListeners := (simpleListeners E)(t \<mapsto> [l]),
                           listenTypes := listenTypes E @ [t]\<rparr>)
      | Own ls \<Rightarrow> Inr (E\<lparr>simpleListeners := (simpleListeners E)(t \<mapsto> ls @ [l])\<rparr>)
      | Inherited i \<Rightarrow> Inl not_a_function)"
| "add_entry (TFilter f) l E =
     (let n = filter_typeName f
      in case member (filterListeners E) n of
           Missing \<Rightarrow> Inr (E\<lparr>filterListeners := (filterListeners E)(n \<mapsto> [(l, f)]),
                              listenTypes := listenTypes E @ [n]\<rparr>)
         | Own ls \<Rightarrow> Inr (E\<lparr>filterListeners := (filterListeners E)(n \<mapsto> ls @ [(l, f)])\<rparr>)
         | Inherited i \<Rightarrow> Inl not_a_function)"

text \<open>\<open>this.simpleListeners.newListener || this.filterListeners.newListener\<close>\<close>

definition has_newListener :: "informer \<Rightarrow> bool" where
  "has_newListener E =
     (member (simpleListeners E) ''newListener'' \<noteq> Missing
      \<or> member (filterListeners E) ''newListener'' \<noteq> Missing)"

definition addListener :: "emitfn \<Rightarrow> etype \<Rightarrow> jsval \<Rightarrow> world \<Rightarrow> (world, world) outcome" where
  "addListener em type listener w =
     (case listener of
        JFunction l \<Rightarrow>
          then_do
            (if has_newListener (w_inf w) then
               em (TName ''newListener'')
                 [etype_val type,
                  JFunction (case fn_listener (w_inf w) l of Some orig \<Rightarrow> orig | None \<Rightarrow> l),
                  JPrim (PString (typeName_of type))] w
             else Ret w)
            (\<lambda>w1. case add_entry type l (w_inf w1) of
                     Inl e \<Rightarrow> Thr e w1
                   | Inr E' \<Rightarrow> Ret (w1\<lparr>w_inf := E'\<rparr>))
      | _ \<Rightarrow> Thr (JTypeError ''listener must be a function'') w)"

subsection \<open>Calling a function value\<close>

text \<open>
  A user function runs its body. A wrapper runs \<open>g\<close>: \<open>++fired == times\<close> removes \<open>g\<close>
  through the receiver (a receiver that is no dispatch context has no \<open>removeListener\<close>),
  then the wrapped listener is applied to the same receiver and arguments.
\<close>

definition invoke_with :: "host \<Rightarrow> emitfn \<Rightarrow> invfn \<Rightarrow> body \<Rightarrow> invfn" where
  "invoke_with h em ivk body f this args w =
     (case f of
        User i \<Rightarrow> call_user body i this args w
      | Shim k \<Rightarrow>
          (let E = w_inf w
           in if length (closures E) \<le> k then Thr not_a_function w
              else
                (let sh = closures E ! k;
                     fired = sh_fired sh + 1;
                     w1 = w\<lparr>w_inf := E\<lparr>closures := (closures E)[k := sh\<lparr>sh_fired := fired\<rparr>]\<rparr>\<rparr>
                 in then_do
                      (if fired = sh_times sh then
                         (case this of
                            Some c \<Rightarrow> removeListener h em (sh_type sh) (JFunction (Shim k)) w1
                          | None \<Rightarrow> Thr not_a_function w1)
                       else Ret w1)
                      (\<lambda>w2. ivk (sh_listener sh) this args w2))))"

subsection \<open>emit\<close>

text \<open>
  \<open>doListener\<close> reads \<open>ListenerSaysStop\<close>, \<open>type\<close> and \<open>ListenerIsDone\<close> from its own
  receiver \<open>this\<close>, which is whatever the task runner calls a task on, not the dispatch
  context of the closure. What these three reads give is a parameter of the model.
\<close>

record flow_this =
  ft_type :: prim
  ft_ListenerSaysStop :: bool
  ft_ListenerIsDone :: bool

text \<open>The variables of one \<open>emit\<close> call that its closures share.\<close>

record locals =
  shouldBeStopped :: bool
  isAsync :: bool
  subtasks :: "context option list"

definition init_locals :: locals where
  "init_locals = \<lparr> shouldBeStopped = False, isAsync = False, subtasks = [] \<rparr>"

type_synonym task = "fn option \<times> context"

type_synonym result = "(locals \<times> world, world) outcome"

text \<open>
  \<open>eachListener\<close>, for the entries after the two metadata slots: unless \<open>shouldBeStopped\<close>
  holds when the task list is built, a context is created and a task appended.
\<close>

definition eachListener :: "locals \<Rightarrow> query \<Rightarrow> entry \<Rightarrow> task list \<Rightarrow> task list" where
  "eachListener l q listener tasks =
     (if shouldBeStopped l then tasks
      else tasks @ [(fst listener, new_context (q_typeName q) (q_filter q) True False)])"

text \<open>
  \<open>doListener(next)\<close>; the positional calls for up to two arguments and \<open>apply\<close> pass the
  same arguments, and \<open>listeners[index][0].call\<close> on an entry without function reads a
  member of \<open>undefined\<close>. \<open>next\<close> is the continuation the task runner supplies.
\<close>

definition doListener :: "host \<Rightarrow> invfn \<Rightarrow> flow_this \<Rightarrow> jsval list \<Rightarrow> task
    \<Rightarrow> (locals \<Rightarrow> world \<Rightarrow> result) \<Rightarrow> locals \<Rightarrow> world \<Rightarrow> result" where
  "doListener h ivk r args task next l w =
     then_do (case fst task of
                None \<Rightarrow> Thr undefined_read w
              | Some f \<Rightarrow> ivk f (Some (snd task)) args w)
       (\<lambda>(this', w').
          let l1 = (if ft_ListenerSaysStop r then l\<lparr>shouldBeStopped := True\<rparr> else l);
              l2 = (if truthy (ft_type r) then l1\<lparr>isAsync := True\<rparr> else l1)
          in if \<not> truthy (ft_type r) \<or> ft_ListenerIsDone r then next l2 w'
             else if loose_eq h (ft_type r) (PString ''series'') then Ret (l2, w')
             else then_do (next l2 w')
                    (\<lambda>(l3, w''). Ret (l3\<lparr>subtasks := subtasks l3 @ [this']\<rparr>, w'')))"

fun truthy_val :: "jsval \<Rightarrow> bool" where
  "truthy_val (JPrim p) = truthy p"
| "truthy_val (JBool b) = b"
| "truthy_val _ = True"

text \<open>\<open>args.last()\<close> is \<open>this[this.length-1]\<close>.\<close>

definition last_arg :: "jsval list \<Rightarrow> jsval" where
  "last_arg args = (if args = [] then JPrim PUndefined else last args)"

text \<open>The value of \<open>shouldBeStopped\<close>: \<open>undefined\<close> until it is set to \<open>true\<close>.\<close>

definition stopped_val :: "locals \<Rightarrow> jsval" where
  "stopped_val l = (if shouldBeStopped l then JBool True else JPrim PUndefined)"

fun ctx_done :: "context option \<Rightarrow> bool" where
  "ctx_done None = False"
| "ctx_done (Some c) = c_ListenerIsDone c"

fun ctx_err :: "context option \<Rightarrow> jsval" where
  "ctx_err None = JPrim PUndefined"
| "ctx_err (Some c) = c_err c"

text \<open>
  Modelled from the spec: the task runner \<open>Function.parallel\<close> is not part of these
  sources. Every \<open>parallelHandler\<close> is invoked; one whose context is done reports
  \<open>context.err\<close>, the others wait for their completion function. \<open>parallelDone\<close> runs
  with the first error once all have reported.
\<close>

definition parallel :: "invfn \<Rightarrow> fn \<Rightarrow> jsval \<Rightarrow> locals \<Rightarrow> world \<Rightarrow> result" where
  "parallel ivk cb err l w =
     (if list_all ctx_done (subtasks l) then
        (let subErr = (case filter truthy_val (map ctx_err (subtasks l)) of
                         [] \<Rightarrow> JPrim PUndefined | e # _ \<Rightarrow> e);
             err' = (if truthy_val err \<and> truthy_val subErr then JArray [err, subErr] else err)
         in then_do (ivk cb None [err', stopped_val l] w) (\<lambda>(this', w'). Ret (l, w')))
      else Ret (l, w))"

definition seriesDone :: "invfn \<Rightarrow> jsval list \<Rightarrow> jsval \<Rightarrow> locals \<Rightarrow> world \<Rightarrow> result" where
  "seriesDone ivk args err l w =
     (if \<not> isAsync l then (if truthy_val err then Thr err w else Ret (l, w))
      else
        (case last_arg args of
           JFunction cb \<Rightarrow>
             (if subtasks l = [] then
                then_do (ivk cb None [err, stopped_val l] w) (\<lambda>(this', w'). Ret (l, w'))
              else parallel ivk cb err l w)
         | _ \<Rightarrow> (if truthy_val err then Thr err w else Ret (l, w))))"

text \<open>
  Modelled from the spec: the task runner \<open>Function.series\<close> is not part of these
  sources. It invokes the tasks one at a time, in order and immediately: the \<open>next\<close> it
  hands to a task runs the rest of the list, and \<open>seriesDone\<close> after the last task, before
  it returns. A task that throws is not caught.
\<close>

fun series :: "host \<Rightarrow> invfn \<Rightarrow> flow_this \<Rightarrow> jsval list \<Rightarrow> task list \<Rightarrow> locals \<Rightarrow> world \<Rightarrow> result" where
  "series h ivk r args [] l w = seriesDone ivk args (JPrim PUndefined) l w"
| "series h ivk r args (t # ts) l w =
     doListener h ivk r args t (\<lambda>l' w'. series h ivk r args ts l' w') l w"

fun is_Error :: "jsval \<Rightarrow> bool" where
  "is_Error (JError m) = True"
| "is_Error (JTypeError m) = True"
| "is_Error _ = False"

text \<open>\<open>arguments[1]\<close> of \<open>emit\<close>: the first argument after the type.\<close>

definition first_arg :: "jsval list \<Rightarrow> jsval" where
  "first_arg args = (case args of [] \<Rightarrow> JPrim PUndefined | a # _ \<Rightarrow> a)"

definition uncaught_error :: jsval where
  \<open>uncaught_error = JTypeError ''Uncaught, unspecified "error" event.''\<close>

text \<open>
  The body of \<open>emit\<close>, with the variables of the call in its result. \<open>listeners.length < 3\<close>
  says that no entry follows the two metadata slots.
\<close>

definition dispatch :: "host \<Rightarrow> invfn \<Rightarrow> flow_this \<Rightarrow> etype \<Rightarrow> jsval list \<Rightarrow> world \<Rightarrow> result" where
  "dispatch h ivk r type args w =
     (case queryListeners h (w_inf w) type True of
        NoFuel \<Rightarrow> NoFuel
      | Thr e E1 \<Rightarrow> Thr e (w\<lparr>w_inf := E1\<rparr>)
      | Ret (q, E1) \<Rightarrow>
          (let w1 = w\<lparr>w_inf := E1\<rparr>
           in if type = TName ''error'' \<and> length (q_entries q) + 2 < 3 then
                (if is_Error (first_arg args) then Thr (first_arg args) w1 else Thr uncaught_error w1)
              else if length (q_entries q) + 2 < 3 then Ret (init_locals, w1)
              else series h ivk r args (fold (eachListener init_locals q) (q_entries q) [])
                     init_locals w1))"

definition emit_with :: "host \<Rightarrow> invfn \<Rightarrow> flow_this \<Rightarrow> emitfn" where
  "emit_with h ivk r type args w = then_do (dispatch h ivk r type args w) (\<lambda>(l, w'). Ret w')"

text \<open>
  \<open>emit\<close> and the call of a function value call each other (a wrapper removes itself,
  which may emit \<open>removeListener\<close>); the nesting depth is bounded by a budget.
\<close>

primrec engine :: "host \<Rightarrow> body \<Rightarrow> flow_this \<Rightarrow> nat \<Rightarrow> emitfn \<times> invfn" where
  "engine h body r 0 = ((\<lambda>type args w. NoFuel), (\<lambda>f this args w. NoFuel))"
| "engine h body r (Suc n) =
     (emit_with h (snd (engine h body r n)) r,
      invoke_with h (fst (engine h body r n)) (snd (engine h body r n)) body)"

definition emit :: "host \<Rightarrow> body \<Rightarrow> flow_this \<Rightarrow> nat \<Rightarrow> emitfn" where
  "emit h body r n = fst (engine h body r n)"

definition invoke :: "host \<Rightarrow> body \<Rightarrow> flow_this \<Rightarrow> nat \<Rightarrow> invfn" where
  "invoke h body r n = snd (engine h body r n)"

subsection \<open>many, after, afterOnce, emitOnce\<close>

definition new_shim :: "etype \<Rightarrow> int \<Rightarrow> fn \<Rightarrow> world \<Rightarrow> world" where
  "new_shim type ntimes l w =
     w\<lparr>w_inf := (w_inf w)\<lparr>closures := closures (w_inf w) @
        [\<lparr>sh_type = type, sh_times = ntimes, sh_listener = l, sh_fired = 0\<rparr>]\<rparr>\<rparr>"

text \<open>\<open>if (typeof times !== 'number') { listener = times; times = dflt; }\<close>, with \<open>ntimes\<close> for \<open>times\<close>\<close>

fun shift_times :: "int \<Rightarrow> jsval \<Rightarrow> jsval \<Rightarrow> int \<times> jsval" where
  "shift_times dflt (JPrim (PNumber n)) listener = (n, listener)"
| "shift_times dflt ntimes listener = (dflt, ntimes)"

definition many :: "emitfn \<Rightarrow> etype \<Rightarrow> jsval \<Rightarrow> jsval \<Rightarrow> world \<Rightarrow> (world, world) outcome" where
  "many em type ntimes listener w =
     (let (ntimes', listener') = shift_times 1 ntimes listener
      in case listener' of
           JFunction l \<Rightarrow>
             addListener em type (JFunction (Shim (length (closures (w_inf w)))))
               (new_shim type ntimes' l w)
         | _ \<Rightarrow> Thr (JTypeError ''listener must be a function'') w)"

text \<open>
  \<open>after\<close>: the wrapper is registered, and if \<open>hasBeenSeen(type)\<close> then holds, it is called
  on a new context with \<open>type\<close>, \<open>filter\<close> and \<open>past = true\<close>, without arguments.
\<close>

definition after :: "host \<Rightarrow> emitfn \<Rightarrow> invfn \<Rightarrow> etype \<Rightarrow> jsval \<Rightarrow> jsval \<Rightarrow> world
    \<Rightarrow> (world, world) outcome" where
  "after h em ivk type ntimes listener w =
     (let (ntimes', listener') = shift_times (- 1) ntimes listener
      in case listener' of
           JFunction l \<Rightarrow>
             (let g = Shim (length (closures (w_inf w)))
              in then_do (addListener em type (JFunction g) (new_shim type ntimes' l w))
                   (\<lambda>w1. case hasBeenSeen h (w_inf w1) type of
                            Inl e \<Rightarrow> Thr e w1
                          | Inr True \<Rightarrow>
                              then_do
                                (ivk g (Some (new_context (typeName_of type) (filter_of type) False True)) [] w1)
                                (\<lambda>(this', w2). Ret w2)
                          | Inr False \<Rightarrow> Ret w1))
         | _ \<Rightarrow> Thr (JTypeError ''listener must be a function'') w)"

definition afterOnce :: "host \<Rightarrow> emitfn \<Rightarrow> invfn \<Rightarrow> etype \<Rightarrow> jsval \<Rightarrow> jsval \<Rightarrow> world
    \<Rightarrow> (world, world) outcome" where
  "afterOnce h em ivk type ntimes listener w =
     (let (ntimes', listener') = shift_times 1 ntimes listener
      in after h em ivk type (JPrim (PNumber ntimes')) listener' w)"

definition emitOnce :: "host \<Rightarrow> emitfn \<Rightarrow> etype \<Rightarrow> jsval \<Rightarrow> world \<Rightarrow> (world, world) outcome" where
  "emitOnce h em type data w =
     (case hasBeenSeen h (w_inf w) type of
        Inl e \<Rightarrow> Thr e w
      | Inr True \<Rightarrow> Ret w
      | Inr False \<Rightarrow> em type [data] w)"

subsection \<open>Observations and example listeners\<close>

fun returned :: "('a, 's) outcome \<Rightarrow> 'a option" where
  "returned (Ret x) = Some x"
| "returned _ = None"

fun thrown :: "('a, 's) outcome \<Rightarrow> jsval option" where
  "thrown (Thr e s) = Some e"
| "thrown _ = None"

text \<open>The user functions called so far, in order, when a call has returned or thrown.\<close>

definition called :: "(world, world) outcome \<Rightarrow> nat list option" where
  "called res =
     (case res of Ret w \<Rightarrow> Some (map fst (w_calls w))
      | Thr e w \<Rightarrow> Some (map fst (w_calls w))
      | NoFuel \<Rightarrow> None)"

text \<open>A task receiver without the three members \<open>doListener\<close> reads, such as the global
  object or the task array.\<close>

definition plain_this :: flow_this where
  "plain_this = \<lparr> ft_type = PUndefined, ft_ListenerSaysStop = False, ft_ListenerIsDone = False \<rparr>"

definition new_world :: world where
  "new_world = \<lparr> w_inf = new_Informer, w_calls = [] \<rparr>"

text \<open>Listeners that do nothing.\<close>

definition idle_body :: body where
  "idle_body i this args E = Ret (this, E)"

text \<open>
  Function 0 sets \<open>this.ListenerSaysStop = true\<close>; function 1 runs
  \<open>this.wait('series')()\<close>; function 2 throws \<open>Error('boom')\<close>; the others do nothing.
\<close>

definition demo_body :: body where
  "demo_body i this args E =
     (if i = 0 then Ret (map_option stop this, E)
      else if i = 1 then
        Ret (map_option (\<lambda>c. wait_next (JPrim PUndefined) (wait (PString ''series'') c)) this, E)
      else if i = 2 then Thr (JError ''boom'') E
      else Ret (this, E))"

text \<open>The state after \<open>on(type, f)\<close> for a user function \<open>f\<close> on an emitter without
  \<open>newListener\<close> listeners, whether the call returned or threw.\<close>

definition on_user :: "etype \<Rightarrow> nat \<Rightarrow> world \<Rightarrow> world" where
  "on_user type i w =
     (case add_entry type (User i) (w_inf w) of Inr E' \<Rightarrow> w\<lparr>w_inf := E'\<rparr> | Inl e \<Rightarrow> w)"

text \<open>A hypothesis on a user function: every call returns and leaves the emitter as it is.\<close>

definition pure_listener :: "body \<Rightarrow> nat \<Rightarrow> bool" where
  "pure_listener body i = (\<forall>c a E. \<exists>c'. body i c a E = Ret (c', E))"

text \<open>A host for closed examples: they compare values of equal type only, so its
  conversions are never applied.\<close>

definition sample_host :: host where
  "sample_host = \<lparr> ToNumber = (\<lambda>s. if s = [] then Some 0 else None), member_text = (\<lambda>k. []) \<rparr>"

text \<open>A new emitter on which \<open>'t'\<close> has been emitted.\<close>

definition seen_world :: world where
  "seen_world = \<lparr>w_inf = new_Informer\<lparr>simpleSeen := (\<lambda>s. s = ''t'')\<rparr>, w_calls = []\<rparr>"

section \<open>Properties\<close>

lemma emit_Suc: "emit h body r (Suc n) = emit_with h (invoke h body r n) r"
  by (simp add: emit_def invoke_def)

lemma invoke_Suc:
  "invoke h body r (Suc n) = invoke_with h (emit h body r n) (invoke h body r n) body"
  by (simp add: emit_def invoke_def)

lemma addListener_on_user:
  "\<not> has_newListener (w_inf w) \<Longrightarrow>
   (case addListener em type (JFunction (User i)) w of
      Ret w' \<Rightarrow> w' = on_user type i w
    | Thr e w' \<Rightarrow> w' = on_user type i w
    | NoFuel \<Rightarrow> False)"
  by (simp add: addListener_def on_user_def then_do_def split: sum.splits)

text \<open>
  C5: an \<open>emit\<close> of the type \<open>'error'\<close> for which the query finds no listener throws its
  first event argument as it is when that is an \<open>Error\<close> (a \<open>TypeError\<close> is one), and throws
  \<open>TypeError('Uncaught, unspecified "error" event.')\<close> for every other first argument and
  when there is none, whatever arguments follow.
\<close>

theorem emit_error_uncaught:
  assumes \<open>queryListeners h (w_inf w) (TName ''error'') True = Ret (q, E1)\<close> and \<open>q_entries q = []\<close>
  shows \<open>emit h body r (Suc n) (TName ''error'') (JError m # rest) w = Thr (JError m) (w\<lparr>w_inf := E1\<rparr>)
    \<and> emit h body r (Suc n) (TName ''error'') (JTypeError m # rest) w
        = Thr (JTypeError m) (w\<lparr>w_inf := E1\<rparr>)
    \<and> emit h body r (Suc n) (TName ''error'') (JPrim p # rest) w
        = Thr (JTypeError ''Uncaught, unspecified "error" event.'') (w\<lparr>w_inf := E1\<rparr>)
    \<and> emit h body r (Suc n) (TName ''error'') (JBool b # rest) w
        = Thr (JTypeError ''Uncaught, unspecified "error" event.'') (w\<lparr>w_inf := E1\<rparr>)
    \<and> emit h body r (Suc n) (TName ''error'') (JFunction f # rest) w
        = Thr (JTypeError ''Uncaught, unspecified "error" event.'') (w\<lparr>w_inf := E1\<rparr>)
    \<and> emit h body r (Suc n) (TName ''error'') (JObject obj # rest) w
        = Thr (JTypeError ''Uncaught, unspecified "error" event.'') (w\<lparr>w_inf := E1\<rparr>)
    \<and> emit h body r (Suc n) (TName ''error'') (JArray xs # rest) w
        = Thr (JTypeError ''Uncaught, unspecified "error" event.'') (w\<lparr>w_inf := E1\<rparr>)
    \<and> emit h body r (Suc n) (TName ''error'') [] w
        = Thr (JTypeError ''Uncaught, unspecified "error" event.'') (w\<lparr>w_inf := E1\<rparr>)
    \<and> E1 = (w_inf w)\<lparr>simpleSeen := (simpleSeen (w_inf w))(''error'' := True)\<rparr>\<close>
proof -
  have e: \<open>E1 = (w_inf w)\<lparr>simpleSeen := (simpleSeen (w_inf w))(''error'' := True)\<rparr>\<close>
    using assms(1) by (simp add: queryListeners_def mark_seen_def Let_def)
  have d: \<open>emit h body r (Suc n) (TName ''error'') args w =
      (if is_Error (first_arg args) then Thr (first_arg args) (w\<lparr>w_inf := E1\<rparr>)
       else Thr uncaught_error (w\<lparr>w_inf := E1\<rparr>))\<close> for args
    using assms by (simp add: emit_Suc emit_with_def dispatch_def then_do_def)
  show ?thesis
    using e by (simp add: d first_arg_def uncaught_error_def)
qed

theorem emit_error_uncaught_witness:
  \<open>queryListeners sample_host (w_inf new_world) (TName ''error'') True
     = Ret (\<lparr>q_typeName = ''error'', q_filter = None, q_entries = []\<rparr>,
            new_Informer\<lparr>simpleSeen := (simpleSeen new_Informer)(''error'' := True)\<rparr>)
   \<and> thrown (emit sample_host idle_body plain_this (Suc 0) (TName ''error'')
        [JError ''boom'', JPrim (PNumber 3)] new_world) = Some (JError ''boom'')
   \<and> thrown (emit sample_host idle_body plain_this (Suc 0) (TName ''error'')
        [JPrim (PNumber 3), JError ''boom''] new_world)
       = Some (JTypeError ''Uncaught, unspecified "error" event.'')\<close>
proof -
  have q: \<open>queryListeners sample_host (w_inf new_world) (TName ''error'') True
     = Ret (\<lparr>q_typeName = ''error'', q_filter = None, q_entries = []\<rparr>,
            new_Informer\<lparr>simpleSeen := (simpleSeen new_Informer)(''error'' := True)\<rparr>)\<close>
    by (simp add: queryListeners_def mark_seen_def simple_matches_def member_def
        Object_prototype_def new_world_def new_Informer_def Let_def)
  have e: \<open>q_entries \<lparr>q_typeName = ''error'', q_filter = None, q_entries = []\<rparr> = []\<close> by simp
  show ?thesis
    using q
      emit_error_uncaught [OF q e, where body = idle_body and r = plain_this and n = 0
        and m = "''boom''" and rest = "[JPrim (PNumber 3)]"]
      emit_error_uncaught [OF q e, where body = idle_body and r = plain_this and n = 0
        and p = "PNumber 3" and rest = "[JError ''boom'']"]
    by simp
qed
text \<open>
  C6, as amended: for every type name other than \<open>'error'\<close> that does not name a function
  with parameters inherited from \<open>Object.prototype\<close> (such as \<open>constructor\<close>) and has no
  listeners registered, \<open>emit\<close> returns without throwing, whatever its arguments; it
  marks the name as seen and calls no function (so no trailing callback).
\<close>

theorem emit_no_listeners:
  assumes "T \<noteq> ''error''" and "\<forall>k. Object_prototype T \<noteq> Some (IFunction (Suc k))"
    and "simpleListeners (w_inf w) T = None \<or> simpleListeners (w_inf w) T = Some []"
  shows "emit h body r (Suc n) (TName T) args w
           = Ret (if T = ''__proto__'' then w
                  else w\<lparr>w_inf := (w_inf w)\<lparr>simpleSeen := (simpleSeen (w_inf w))(T := True)\<rparr>\<rparr>)
         \<and> called (emit h body r (Suc n) (TName T) args w) = Some (map fst (w_calls w))"
proof -
  let ?E1 = "if T = ''__proto__'' then w_inf w
             else (w_inf w)\<lparr>simpleSeen := (simpleSeen (w_inf w))(T := True)\<rparr>"
  have sl: "simpleListeners ?E1 T = simpleListeners (w_inf w) T" by simp
  have len: "Object_prototype T = Some i \<Longrightarrow> inherited_length i = 0" for i
    using assms(2) by (cases i) (auto intro: ccontr dest: not0_implies_Suc)
  have sm: "simple_matches ?E1 T = []"
    using assms(3) len
    by (auto simp add: simple_matches_def member_def sl split: option.splits)
  have q: "queryListeners h (w_inf w) (TName T) True =
      Ret (\<lparr>q_typeName = T, q_filter = None, q_entries = []\<rparr>, ?E1)"
    using sm by (simp add: queryListeners_def mark_seen_def Let_def)
  show ?thesis
    using assms(1) by (simp add: emit_Suc emit_with_def dispatch_def q then_do_def called_def)
qed

theorem emit_no_listeners_witness:
  "''t'' \<noteq> ''error'' \<and> Object_prototype ''t'' = None \<and>
   simpleListeners (w_inf new_world) ''t'' = None \<and>
   emit sample_host idle_body plain_this (Suc 0) (TName ''t'') [JFunction (User 0)] new_world
     = Ret (new_world\<lparr>w_inf := new_Informer\<lparr>simpleSeen := (simpleSeen new_Informer)(''t'' := True)\<rparr>\<rparr>) \<and>
   called (emit sample_host idle_body plain_this (Suc 0) (TName ''t'') [JFunction (User 0)] new_world)
     = Some []"
proof -
  have h1: "''t'' \<noteq> ''error''" by simp
  have h2: "Object_prototype ''t'' = None" by (simp add: Object_prototype_def)
  have h2': "\<forall>k. Object_prototype ''t'' \<noteq> Some (IFunction (Suc k))"
    using h2 by simp
  have h3: "simpleListeners (w_inf new_world) ''t'' = None"
    by (simp add: new_world_def new_Informer_def)
  have h3': "simpleListeners (w_inf new_world) ''t'' = None
      \<or> simpleListeners (w_inf new_world) ''t'' = Some []"
    using h3 by simp
  have e: "w_inf new_world = new_Informer" and c: "w_calls new_world = []"
    by (simp_all add: new_world_def)
  show ?thesis
    using h1 h2 h3
      emit_no_listeners [OF h1 h2' h3', of sample_host idle_body plain_this 0 "[JFunction (User 0)]"]
    by (simp add: e c called_def)
qed

theorem emit_no_listeners_counterexample:
  \<open>thrown (emit sample_host idle_body plain_this (Suc 0) (TName ''error'') [] new_world)
     = Some (JTypeError ''Uncaught, unspecified "error" event.'')\<close>
  by code_simp

text \<open>
  The names left out of C6: under an inherited function of positive \<open>length\<close>, such as
  \<open>constructor\<close>, the query returns that many entries without function, and \<open>emit\<close> throws
  when it calls the first.
\<close>

lemma emit_inherited_name_throws:
  "returned (queryListeners h new_Informer (TName ''constructor'') True)
     = Some (\<lparr>q_typeName = ''constructor'', q_filter = None, q_entries = [(None, None)]\<rparr>,
             new_Informer\<lparr>simpleSeen := (simpleSeen new_Informer)(''constructor'' := True)\<rparr>)
   \<and> thrown (emit h idle_body plain_this (Suc (Suc 0)) (TName ''constructor'') [] new_world)
     = Some (JTypeError ''Cannot read property of undefined'')
   \<and> called (emit h idle_body plain_this (Suc (Suc 0)) (TName ''constructor'') [] new_world) = Some []"
proof -
  have a: "returned (queryListeners h new_Informer (TName ''constructor'') True)
     = Some (\<lparr>q_typeName = ''constructor'', q_filter = None, q_entries = [(None, None)]\<rparr>,
             new_Informer\<lparr>simpleSeen := (simpleSeen new_Informer)(''constructor'' := True)\<rparr>)"
    by (simp add: queryListeners_def mark_seen_def simple_matches_def member_def
        Object_prototype_def new_Informer_def Let_def)
  have b: "thrown (emit h idle_body plain_this (Suc (Suc 0)) (TName ''constructor'') [] new_world)
     = Some (JTypeError ''Cannot read property of undefined'')"
    by code_simp
  have c: "called (emit h idle_body plain_this (Suc (Suc 0)) (TName ''constructor'') [] new_world) = Some []"
    by code_simp
  from a b c show ?thesis by blast
qed
text \<open>
  C1: a listener that sets \<open>this.ListenerSaysStop = true\<close> on its dispatch context should
  keep later listeners of the emission from running. Here function 0 sets the flag and
  function 7, registered after it, is called all the same, also on a task receiver whose
  own \<open>ListenerSaysStop\<close> is set: tasks are built for every entry before any listener
  runs, and \<open>doListener\<close> reads the flag from its own receiver.
\<close>

theorem stop_does_not_stop:
  "called (emit h demo_body plain_this (Suc (Suc 0)) (TName ''t'') []
      (on_user (TName ''t'') 7 (on_user (TName ''t'') 0 new_world))) = Some [0, 7]
   \<and> called (emit h demo_body
        \<lparr>ft_type = PUndefined, ft_ListenerSaysStop = True, ft_ListenerIsDone = False\<rparr>
        (Suc (Suc 0)) (TName ''t'') []
        (on_user (TName ''t'') 7 (on_user (TName ''t'') 0 new_world))) = Some [0, 7]
   \<and> fold (eachListener init_locals q) es [] =
       map (\<lambda>e. (fst e, new_context (q_typeName q) (q_filter q) True False)) es"
proof (intro conjI)
  show "called (emit h demo_body plain_this (Suc (Suc 0)) (TName ''t'') []
      (on_user (TName ''t'') 7 (on_user (TName ''t'') 0 new_world))) = Some [0, 7]"
    by code_simp
next
  show "called (emit h demo_body
        \<lparr>ft_type = PUndefined, ft_ListenerSaysStop = True, ft_ListenerIsDone = False\<rparr>
        (Suc (Suc 0)) (TName ''t'') []
        (on_user (TName ''t'') 7 (on_user (TName ''t'') 0 new_world))) = Some [0, 7]"
    by code_simp
next
  have "fold (eachListener init_locals q) es acc =
      acc @ map (\<lambda>e. (fst e, new_context (q_typeName q) (q_filter q) True False)) es" for acc
    by (induction es arbitrary: acc) (simp_all add: eachListener_def init_locals_def)
  then show "fold (eachListener init_locals q) es [] =
      map (\<lambda>e. (fst e, new_context (q_typeName q) (q_filter q) True False)) es"
    by simp
qed

text \<open>
  C2: a listener that calls \<open>this.wait('series')\<close> and its completion function at once
  should make the emission asynchronous and have the trailing callback called once. Here
  function 1 does so, and \<open>isAsync\<close> stays false and the callback, function 9, is never
  called: \<open>wait\<close> writes \<open>async\<close> on the context, \<open>doListener\<close> reads \<open>type\<close> from its receiver.
\<close>

theorem wait_is_not_async:
  "map_option (\<lambda>(l, w). (isAsync l, map fst (w_calls w)))
     (returned (dispatch h (invoke h demo_body plain_this (Suc 0)) plain_this (TName ''t'')
        [JFunction (User 9)] (on_user (TName ''t'') 1 new_world)))
   = Some (False, [1])"
  by code_simp


text \<open>
  C4: \<open>hasBeenSeen\<close> of a filter object should tell whether a compatible filter was
  emitted. It reads the registered filter listeners and never \<open>filterSeen\<close>: after
  emitting \<open>{type: 't', a: 1}\<close> on a new emitter the same filter is recorded in \<open>filterSeen\<close>
  but not seen, and with a listener on \<open>{a: 1}\<close> and no emission \<open>{a: 1}\<close> is seen.
\<close>

lemma seen_scan_frame:
  "seen_scan h (E\<lparr>filterSeen := fs, simpleSeen := ss\<rparr>) f ns = seen_scan h E f ns"
  by (induction ns) (simp_all split: member.splits)

theorem hasBeenSeen_reads_listeners:
  "map_option (\<lambda>w. (filterSeen (w_inf w),
        hasBeenSeen h (w_inf w) (TFilter [(''type'', PString ''t''), (''a'', PNumber 1)])))
     (returned (emit h idle_body plain_this (Suc 0)
        (TFilter [(''type'', PString ''t''), (''a'', PNumber 1)]) [] new_world))
   = Some ([[(''type'', PString ''t''), (''a'', PNumber 1)]], Inr False)
   \<and> filterSeen (w_inf (on_user (TFilter [(''a'', PNumber 1)]) 0 new_world)) = []
   \<and> hasBeenSeen h (w_inf (on_user (TFilter [(''a'', PNumber 1)]) 0 new_world))
        (TFilter [(''a'', PNumber 1)]) = Inr True
   \<and> hasBeenSeen h (E\<lparr>filterSeen := fs, simpleSeen := ss\<rparr>) (TFilter f) = hasBeenSeen h E (TFilter f)"
proof -
  have a: "map_option (\<lambda>w. (filterSeen (w_inf w),
        hasBeenSeen h (w_inf w) (TFilter [(''type'', PString ''t''), (''a'', PNumber 1)])))
     (returned (emit h idle_body plain_this (Suc 0)
        (TFilter [(''type'', PString ''t''), (''a'', PNumber 1)]) [] new_world))
   = Some ([[(''type'', PString ''t''), (''a'', PNumber 1)]], Inr False)"
    by code_simp
  have b: "filterSeen (w_inf (on_user (TFilter [(''a'', PNumber 1)]) 0 new_world)) = []"
    by code_simp
  have c: "hasBeenSeen h (w_inf (on_user (TFilter [(''a'', PNumber 1)]) 0 new_world))
        (TFilter [(''a'', PNumber 1)]) = Inr True"
    by code_simp
  have d: "hasBeenSeen h (E\<lparr>filterSeen := fs, simpleSeen := ss\<rparr>) (TFilter f) = hasBeenSeen h E (TFilter f)"
    by (simp add: scan_types_def seen_scan_frame)
  from a b c d show ?thesis by blast
qed

text \<open>
  C9: a listener registered once should be called once per emission. \<open>listenTypes\<close> gets
  the empty name once for the simple listener 3 on it and once more for the filter
  listener 7 on \<open>{a: 1}\<close>; emitting \<open>{a: 1}\<close> scans the filter listeners under every name in
  \<open>listenTypes\<close> and calls function 7 twice.
\<close>

theorem listener_called_twice:
  "listenTypes (w_inf (on_user (TFilter [(''a'', PNumber 1)]) 7 (on_user (TName []) 3 new_world)))
     = [[], []]
   \<and> called (emit h idle_body plain_this (Suc (Suc 0)) (TFilter [(''a'', PNumber 1)]) []
        (on_user (TFilter [(''a'', PNumber 1)]) 7 (on_user (TName []) 3 new_world)))
     = Some [7, 7]"
  by code_simp

lemma call_user_pure:
  assumes "pure_listener body i"
  shows "\<exists>c'. call_user body i this args w = Ret (c', w\<lparr>w_calls := w_calls w @ [(i, this, args)]\<rparr>)"
proof -
  from assms obtain c' where "body i this args (w_inf w) = Ret (c', w_inf w)"
    unfolding pure_listener_def by blast
  then show ?thesis by (simp add: call_user_def)
qed

lemma invoke_Suc_User:
  "invoke h body r (Suc n) (User i) this args w = call_user body i this args w"
  by (simp add: invoke_Suc invoke_with_def)

lemma series_pure:
  assumes "\<not> truthy (ft_type r)" and "\<forall>i\<in>set ids. pure_listener body i"
  shows "\<not> isAsync l \<Longrightarrow> \<exists>l'. series h (invoke h body r (Suc n)) r args (map (\<lambda>i. (Some (User i), ctx)) ids) l w
            = Ret (l', w\<lparr>w_calls := w_calls w @ map (\<lambda>i. (i, Some ctx, args)) ids\<rparr>)"
  using assms(2)
proof (induction ids arbitrary: l w)
  case Nil
  then show ?case by (simp add: seriesDone_def)
next
  case (Cons i ids)
  from Cons.prems have p: "pure_listener body i" by simp
  obtain c' where c: "call_user body i (Some ctx) args w
      = Ret (c', w\<lparr>w_calls := w_calls w @ [(i, Some ctx, args)]\<rparr>)"
    using call_user_pure [OF p] by blast
  define l2 where "l2 = (if ft_ListenerSaysStop r then l\<lparr>shouldBeStopped := True\<rparr> else l)"
  have na: "\<not> isAsync l2" using Cons.prems(1) by (simp add: l2_def)
  from Cons.IH [OF na, of "w\<lparr>w_calls := w_calls w @ [(i, Some ctx, args)]\<rparr>"] Cons.prems
  obtain l' where "series h (invoke h body r (Suc n)) r args (map (\<lambda>i. (Some (User i), ctx)) ids) l2
        (w\<lparr>w_calls := w_calls w @ [(i, Some ctx, args)]\<rparr>)
      = Ret (l', w\<lparr>w_calls := w_calls w @ (i, Some ctx, args) # map (\<lambda>i. (i, Some ctx, args)) ids\<rparr>)"
    by auto
  then show ?case
    using assms(1) c
    by (auto simp add: doListener_def invoke_Suc_User then_do_def l2_def Let_def)
qed


lemma fold_eachListener:
  "fold (eachListener init_locals q) es acc =
     acc @ map (\<lambda>e. (fst e, new_context (q_typeName q) (q_filter q) True False)) es"
  by (induction es arbitrary: acc) (simp_all add: eachListener_def init_locals_def)

lemma Object_prototype_proto: "Object_prototype ''__proto__'' = Some IObject"
  by (simp add: Object_prototype_def)

lemma queryListeners_TName_own:
  assumes "t \<noteq> []" and "t \<noteq> ''__proto__''" and "simpleListeners E t = Some ls"
  shows "queryListeners h E (TName t) m =
     Ret (\<lparr>q_typeName = t, q_filter = None, q_entries = map (\<lambda>l. (Some l, None)) ls\<rparr>,
          E\<lparr>simpleSeen := (simpleSeen E)(t := True)\<rparr>)"
  using assms by (simp add: queryListeners_def simple_matches_def mark_seen_def member_def Let_def)

lemma emit_simple_pure:
  assumes "\<not> truthy (ft_type r)" and "t \<noteq> []"
    and "simpleListeners (w_inf w) t = Some (map User ids)" and "ids \<noteq> []"
    and "\<forall>i\<in>set ids. pure_listener body i" and "t \<noteq> ''__proto__''"
  shows "emit h body r (Suc (Suc n)) (TName t) args w =
     Ret \<lparr>w_inf = (w_inf w)\<lparr>simpleSeen := (simpleSeen (w_inf w))(t := True)\<rparr>,
          w_calls = w_calls w @ map (\<lambda>i. (i, Some (new_context t None True False), args)) ids\<rparr>"
proof -
  let ?E1 = "(w_inf w)\<lparr>simpleSeen := (simpleSeen (w_inf w))(t := True)\<rparr>"
  let ?ctx = "new_context t None True False"
  have na: "\<not> isAsync init_locals" by (simp add: init_locals_def)
  obtain l' where s: "series h (invoke h body r (Suc n)) r args (map (\<lambda>i. (Some (User i), ?ctx)) ids) init_locals
        (w\<lparr>w_inf := ?E1\<rparr>)
      = Ret (l', (w\<lparr>w_inf := ?E1\<rparr>)\<lparr>w_calls := w_calls (w\<lparr>w_inf := ?E1\<rparr>) @ map (\<lambda>i. (i, Some ?ctx, args)) ids\<rparr>)"
    using series_pure [OF assms(1) assms(5) na] by blast
  show ?thesis
    using assms(2) assms(4) s
    by (simp add: emit_Suc emit_with_def dispatch_def
        queryListeners_TName_own [OF assms(2) assms(6) assms(3)] fold_eachListener
        comp_def then_do_def)
qed


text \<open>
  C7: with listeners on a simple type \<open>t\<close> that has not been seen, on a task receiver
  without a \<open>type\<close> member and with listeners that return and leave the emitter alone, the
  first \<open>emitOnce(t, d)\<close> calls the listeners in order, a second one calls none, and a
  direct \<open>emit(t, d)\<close> calls them again.
\<close>

theorem emitOnce_round_trip:
  assumes "\<not> truthy (ft_type r)" and "t \<noteq> []"
    and "simpleListeners (w_inf w) t = Some (map User ids)" and "ids \<noteq> []"
    and "\<forall>i\<in>set ids. pure_listener body i"
    and "hasBeenSeen h (w_inf w) (TName t) = Inr False"
  shows "let em = emit h body r (Suc (Suc n));
             cs = map (\<lambda>i. (i, Some (new_context t None True False), [d])) ids;
             w1 = \<lparr>w_inf = (w_inf w)\<lparr>simpleSeen := (simpleSeen (w_inf w))(t := True)\<rparr>,
                   w_calls = w_calls w @ cs\<rparr>
         in emitOnce h em (TName t) d w = Ret w1
          \<and> emitOnce h em (TName t) d w1 = Ret w1
          \<and> em (TName t) [d] w1 = Ret (w1\<lparr>w_calls := w_calls w1 @ cs\<rparr>)"
proof -
  let ?w1 = "\<lparr>w_inf = (w_inf w)\<lparr>simpleSeen := (simpleSeen (w_inf w))(t := True)\<rparr>,
     w_calls = w_calls w @ map (\<lambda>i. (i, Some (new_context t None True False), [d])) ids\<rparr>"
  have np: "t \<noteq> ''__proto__''"
    using assms(6) by (auto simp add: Object_prototype_proto)
  have a: "emit h body r (Suc (Suc n)) (TName t) [d] w = Ret ?w1"
    by (rule emit_simple_pure [OF assms(1-5) np])
  have l1: "simpleListeners (w_inf ?w1) t = Some (map User ids)"
    using assms(3) by simp
  have b: "emit h body r (Suc (Suc n)) (TName t) [d] ?w1 =
      Ret (?w1\<lparr>w_calls := w_calls ?w1 @ map (\<lambda>i. (i, Some (new_context t None True False), [d])) ids\<rparr>)"
    using emit_simple_pure [OF assms(1,2) l1 assms(4,5) np, of h n "[d]"] by simp
  show ?thesis
    using a b assms(6) by (simp add: emitOnce_def Let_def)
qed

theorem emitOnce_round_trip_witness:
  "\<not> truthy (ft_type plain_this) \<and> ''t'' \<noteq> [] \<and>
   simpleListeners (w_inf (on_user (TName ''t'') 7 new_world)) ''t'' = Some (map User [7]) \<and>
   pure_listener idle_body 7 \<and>
   hasBeenSeen sample_host (w_inf (on_user (TName ''t'') 7 new_world)) (TName ''t'') = Inr False \<and>
   (let em = emit sample_host idle_body plain_this (Suc (Suc 0));
        d = JObject [(''a'', PNumber 1)];
        w = on_user (TName ''t'') 7 new_world;
        cs = [(7, Some (new_context ''t'' None True False), [d])];
        w1 = \<lparr>w_inf = (w_inf w)\<lparr>simpleSeen := (simpleSeen (w_inf w))(''t'' := True)\<rparr>,
              w_calls = cs\<rparr>
    in emitOnce sample_host em (TName ''t'') d w = Ret w1
     \<and> emitOnce sample_host em (TName ''t'') d w1 = Ret w1
     \<and> em (TName ''t'') [d] w1 = Ret (w1\<lparr>w_calls := cs @ cs\<rparr>))"
proof -
  have h1: "\<not> truthy (ft_type plain_this)" by (simp add: plain_this_def)
  have h2: "''t'' \<noteq> []" by simp
  have h3: "simpleListeners (w_inf (on_user (TName ''t'') 7 new_world)) ''t'' = Some (map User [7])"
    by (simp add: on_user_def new_world_def new_Informer_def member_def Object_prototype_def)
  have h4: "[7::nat] \<noteq> []" by simp
  have h5: "\<forall>i\<in>set [7]. pure_listener idle_body i"
    by (simp add: pure_listener_def idle_body_def)
  have h6: "hasBeenSeen sample_host (w_inf (on_user (TName ''t'') 7 new_world)) (TName ''t'') = Inr False"
    by (simp add: on_user_def new_world_def new_Informer_def member_def Object_prototype_def)
  have w: "w_calls (on_user (TName ''t'') 7 new_world) = []"
    by (simp add: on_user_def new_world_def split: sum.splits)
  show ?thesis
    using h1 h2 h3 h5 h6 emitOnce_round_trip [OF h1 h2 h3 h4 h5 h6, where n = 0 and d = "JObject [(''a'', PNumber 1)]"]
    by (simp add: Let_def w)
qed

text \<open>
  C8: \<open>queryListeners\<close> does not look at \<open>markAsSeen\<close>: it marks the resolved type name
  (the string itself, the \<open>type\<close> of a filter object, the empty name for a filter without
  one) and appends a filter object to \<open>filterSeen\<close>, so after \<open>listeners(T)\<close> alone
  \<open>hasBeenSeen(T)\<close> should hold. It does for every type name \<open>T\<close>. For a filter object it
  does not: on a new emitter \<open>listeners({a: 1})\<close> and \<open>listeners({type: 't', a: 1})\<close> record
  the filter and mark the name, and \<open>hasBeenSeen\<close> of the same filter is false, since it
  reads the registered filter listeners only.
\<close>

theorem listeners_filter_not_seen:
  "map_option (\<lambda>(es, E). (es, filterSeen E, simpleSeen E [], hasBeenSeen h E (TFilter [(''a'', PNumber 1)])))
     (returned (listeners h new_Informer (TFilter [(''a'', PNumber 1)])))
   = Some ([], [[(''a'', PNumber 1)]], True, Inr False)
   \<and> map_option (\<lambda>(es, E). (es, filterSeen E, simpleSeen E ''t'', simpleSeen E [],
          hasBeenSeen h E (TFilter [(''type'', PString ''t''), (''a'', PNumber 1)])))
       (returned (listeners h new_Informer (TFilter [(''type'', PString ''t''), (''a'', PNumber 1)])))
     = Some ([], [[(''type'', PString ''t''), (''a'', PNumber 1)]], True, False, Inr False)
   \<and> map_option (\<lambda>(es, E). hasBeenSeen h E (TName T)) (returned (listeners h E0 (TName T)))
     = Some (Inr True)
   \<and> map_option (\<lambda>(es, E). (es, simpleSeen E ''t'', simpleSeen E []))
       (returned (listeners h new_Informer (TName ''t''))) = Some ([], True, False)
   \<and> queryListeners h E0 type True = queryListeners h E0 type False"
proof -
  have a: "map_option (\<lambda>(es, E). (es, filterSeen E, simpleSeen E [], hasBeenSeen h E (TFilter [(''a'', PNumber 1)])))
     (returned (listeners h new_Informer (TFilter [(''a'', PNumber 1)])))
   = Some ([], [[(''a'', PNumber 1)]], True, Inr False)"
    by code_simp
  have b: "map_option (\<lambda>(es, E). (es, filterSeen E, simpleSeen E ''t'', simpleSeen E [],
          hasBeenSeen h E (TFilter [(''type'', PString ''t''), (''a'', PNumber 1)])))
       (returned (listeners h new_Informer (TFilter [(''type'', PString ''t''), (''a'', PNumber 1)])))
     = Some ([], [[(''type'', PString ''t''), (''a'', PNumber 1)]], True, False, Inr False)"
    by code_simp
  have c: "map_option (\<lambda>(es, E). hasBeenSeen h E (TName T)) (returned (listeners h E0 (TName T)))
     = Some (Inr True)"
    by (auto simp add: listeners_def queryListeners_def mark_seen_def then_do_def Let_def
        Object_prototype_def)
  have d: "map_option (\<lambda>(es, E). (es, simpleSeen E ''t'', simpleSeen E []))
       (returned (listeners h new_Informer (TName ''t''))) = Some ([], True, False)"
    by code_simp
  have e: "queryListeners h E0 type True = queryListeners h E0 type False"
    by (simp add: queryListeners_def)
  from a b c d e show ?thesis by blast
qed

text \<open>
  C10: after \<open>hasBeenSeen(type)\<close> holds, \<open>afterOnce(type, listener)\<close> should call the listener
  once, on a context with \<open>past\<close> set and without arguments, and unsubscribe the wrapper. On
  a new emitter on which \<open>'t'\<close> was emitted it does: one call of function 7 with \<open>past\<close> true
  and no arguments, the wrapper has fired once and is gone from the array, and a later
  \<open>emit('t')\<close> calls nothing more. For \<open>'toString'\<close>, which \<open>hasBeenSeen\<close> reports as seen on
  every emitter because the plain object \<open>simpleSeen\<close> inherits a member of that name,
  \<open>afterOnce\<close> throws when it pushes the wrapper onto the inherited function, and the
  listener is never called.
\<close>

theorem afterOnce_inherited_name_throws:
  "hasBeenSeen h new_Informer (TName ''toString'') = Inr True
   \<and> thrown (afterOnce h (emit h idle_body plain_this (Suc (Suc 0)))
        (invoke h idle_body plain_this (Suc (Suc 0)))
        (TName ''toString'') (JFunction (User 7)) (JPrim PUndefined) new_world)
     = Some (JTypeError ''undefined is not a function'')
   \<and> called (afterOnce h (emit h idle_body plain_this (Suc (Suc 0)))
        (invoke h idle_body plain_this (Suc (Suc 0)))
        (TName ''toString'') (JFunction (User 7)) (JPrim PUndefined) new_world) = Some []
   \<and> hasBeenSeen h (w_inf seen_world) (TName ''t'') = Inr True
   \<and> map_option (\<lambda>w. (map (\<lambda>(i, c, a). (i, map_option c_past c, map_option c_type c, a)) (w_calls w),
          simpleListeners (w_inf w) ''t'', map sh_fired (closures (w_inf w)),
          called (emit h idle_body plain_this (Suc (Suc 0)) (TName ''t'') [] w)))
       (returned (afterOnce h (emit h idle_body plain_this (Suc (Suc 0)))
          (invoke h idle_body plain_this (Suc (Suc 0)))
          (TName ''t'') (JFunction (User 7)) (JPrim PUndefined) seen_world))
     = Some ([(7, Some True, Some ''t'', [])], Some [], [1], Some [7])"
proof -
  have a: "hasBeenSeen h new_Informer (TName ''toString'') = Inr True"
    by (simp add: Object_prototype_def)
  have b: "thrown (afterOnce h (emit h idle_body plain_this (Suc (Suc 0)))
        (invoke h idle_body plain_this (Suc (Suc 0)))
        (TName ''toString'') (JFunction (User 7)) (JPrim PUndefined) new_world)
     = Some (JTypeError ''undefined is not a function'')"
    by code_simp
  have c: "called (afterOnce h (emit h idle_body plain_this (Suc (Suc 0)))
        (invoke h idle_body plain_this (Suc (Suc 0)))
        (TName ''toString'') (JFunction (User 7)) (JPrim PUndefined) new_world) = Some []"
    by code_simp
  have d: "hasBeenSeen h (w_inf seen_world) (TName ''t'') = Inr True"
    by (simp add: seen_world_def)
  have e: "map_option (\<lambda>w. (map (\<lambda>(i, c, a). (i, map_option c_past c, map_option c_type c, a)) (w_calls w),
          simpleListeners (w_inf w) ''t'', map sh_fired (closures (w_inf w)),
          called (emit h idle_body plain_this (Suc (Suc 0)) (TName ''t'') [] w)))
       (returned (afterOnce h (emit h idle_body plain_this (Suc (Suc 0)))
          (invoke h idle_body plain_this (Suc (Suc 0)))
          (TName ''t'') (JFunction (User 7)) (JPrim PUndefined) seen_world))
     = Some ([(7, Some True, Some ''t'', [])], Some [], [1], Some [7])"
    by code_simp
  from a b c d e show ?thesis by blast
qed

end
